theory Spec2Isabelle
  imports Complex_Main
begin

section \<open>Data model\<close>

text \<open>
  The client of \<^verbatim>\<open>src/crowdstrike/FalconAPIClient.ts\<close>. JavaScript numbers are
  modelled as exact rationals (unix time in seconds, header values, milliseconds) and
  item counts as naturals; rounding, \<^verbatim>\<open>NaN\<close> and infinities are outside the model.
  Every \<^verbatim>\<open>throw\<close> is a value of type \<open>error\<close>, and an awaited call yields a \<open>result\<close>.
\<close>

datatype error =
    IntegrationProviderAPIError nat
  | IntegrationProviderAuthenticationError nat
  | IntegrationProviderAuthorizationError nat
  | FetchError
  | AttemptAborted
  | AttemptTimeout
  | TypeError

text \<open>\<^verbatim>\<open>error.status\<close>: only the provider errors carry one.\<close>

fun status_of :: "error \<Rightarrow> nat option" where
  "status_of (IntegrationProviderAPIError n) = Some n"
| "status_of (IntegrationProviderAuthenticationError n) = Some n"
| "status_of (IntegrationProviderAuthorizationError n) = Some n"
| "status_of FetchError = None"
| "status_of AttemptAborted = None"
| "status_of AttemptTimeout = None"
| "status_of TypeError = None"

text \<open>
  The outcome of an awaited call: it returns, it throws, or (\<open>Pending\<close>) it has not
  settled within the fuel given to the model.
\<close>

datatype 'a result = Returned 'a | Threw error | Pending

record OAuth2Token =
  tokenStr :: string
  expiresAt :: rat

record RateLimitConfig =
  reserveLimit :: rat
  cooldownPeriod :: rat

record RateLimitState =
  limitRemaining :: rat
  perMinuteLimit :: rat
  retryAfter :: "rat option"

record AttemptOptions =
  maxAttempts :: nat
  delay :: nat
  timeout :: nat
  factor :: rat

definition DEFAULT_RATE_LIMIT_CONFIG :: RateLimitConfig where
  "DEFAULT_RATE_LIMIT_CONFIG = \<lparr>reserveLimit = 30, cooldownPeriod = 1000\<rparr>"

definition DEFAULT_ATTEMPT_OPTIONS :: AttemptOptions where
  "DEFAULT_ATTEMPT_OPTIONS = \<lparr>maxAttempts = 5, delay = 30000, timeout = 180000, factor = 2\<rparr>"

text \<open>
  \<^verbatim>\<open>meta.pagination.total\<close> as the JSON body gives it: missing (\<^verbatim>\<open>undefined\<close> in the
  client), \<^verbatim>\<open>null\<close>, or a number.
\<close>

datatype json_total = TotalAbsent | TotalNull | TotalNumber int

record PaginationMeta =
  limit :: "int option"
  offset :: "string option"
  after :: "string option"
  totalCount :: json_total

text \<open>
  \<^verbatim>\<open>ResourcesResponse<T>\<close>: the parsed body of a resource response. \<open>pagination\<close> is
  \<^verbatim>\<open>response.meta.pagination\<close>, \<open>None\<close> when the body has none.
\<close>

record 'r ResourcesResponse =
  resources :: "'r list"
  pagination :: "PaginationMeta option"

text \<open>
  What the server sends. A header is \<open>None\<close> when \<^verbatim>\<open>headers.get\<close> gives \<^verbatim>\<open>null\<close> or the
  empty string (both are falsy and both convert to the number 0).
\<close>

record token_response =
  tokenStatus :: nat
  access_token :: string
  expires_in :: rat

record 'r api_response =
  status :: nat
  xRateLimitRemaining :: "rat option"
  xRateLimitLimit :: "rat option"
  xRateLimitRetryAfter :: "rat option"
  json :: "'r ResourcesResponse"

datatype 'b outcome = Rejected | Responded 'b

text \<open>
  The two endpoints as scripts: the \<open>i\<close>-th request to an endpoint is answered by the
  \<open>i\<close>-th entry, a pair of the time the exchange took (seconds) and what came back.
\<close>

record 'r server =
  tokenEndpoint :: "nat \<Rightarrow> rat \<times> token_response outcome"
  apiEndpoint :: "nat \<Rightarrow> rat \<times> 'r api_response outcome"

text \<open>
  The client object (\<open>token\<close>, \<open>rateLimitState\<close>, \<open>rateLimitConfig\<close>, \<open>attemptOptions\<close>)
  together with what it observes and causes: the clock \<open>now\<close> (\<^verbatim>\<open>getUnixTimeNow()\<close>),
  the number of requests sent to each endpoint, and the arguments of every
  \<^verbatim>\<open>sleep\<close> call in milliseconds, oldest first.
\<close>

record state =
  token :: "OAuth2Token option"
  rateLimitState :: "RateLimitState option"
  rateLimitConfig :: RateLimitConfig
  attemptOptions :: AttemptOptions
  now :: rat
  tokenRequests :: nat
  apiRequests :: nat
  sleeps :: "rat list"

section \<open>Timers and the retry driver\<close>

text \<open>
  \<^verbatim>\<open>sleep(ms)\<close> resolves after \<^verbatim>\<open>setTimeout(resolve, ms)\<close>. The time that passes is
  \<open>waited ms\<close>: a timer with a negative delay fires at once, and a timer whose delay
  exceeds \<open>TIMEOUT_MAX\<close> (\<open>2 ^ 31 - 1\<close> ms, about 24.8 days) is set to 1 ms by the
  runtime.
\<close>

definition TIMEOUT_MAX :: rat where
  "TIMEOUT_MAX = 2147483647"

definition waited :: "rat \<Rightarrow> rat" where
  "waited ms = (if TIMEOUT_MAX < ms then 1 else max 0 ms)"

definition sleep :: "rat \<Rightarrow> state \<Rightarrow> state" where
  "sleep ms s = s\<lparr>now := now s + waited ms / 1000, sleeps := sleeps s @ [ms]\<rparr>"

definition ok :: "nat \<Rightarrow> bool" where
  "ok st = (200 \<le> st \<and> st \<le> 299)"

record AttemptContext =
  attemptNum :: nat
  attemptsRemaining :: int
  aborted :: bool

text \<open>
  Modelled from the spec: \<^verbatim>\<open>retry\<close> is imported from the package
  \<^verbatim>\<open>@lifeomic/attempt\<close> and is not under src/. The driver below follows section 4.3
  of the spec (a bounded number of attempts, the delay \<open>delay * factor ^ (n - 1)\<close>
  after the \<open>n\<close>-th failed attempt, the last error surfaced when the attempts are used
  up, an aborted sequence rethrowing the error at once) and, where the spec is silent,
  the package's published behaviour: \<open>attemptNum\<close> starts at 0 and is incremented
  before each further attempt, \<open>maxAttempts = 0\<close> means no bound, an error thrown by
  \<open>handleError\<close> ends the sequence. The delay is computed only after \<open>attemptNum\<close> has
  been incremented, so the exponent \<open>attemptNum - 1\<close> is never negative.

  With a non-zero \<open>timeout\<close> every attempt races a timer of that many milliseconds. When
  the attempt has not settled by the time the timer fires, the sequence rejects with
  \<^verbatim>\<open>ATTEMPT_TIMEOUT\<close>: \<open>handleError\<close> is not called and no further attempt is made. The
  state then is the one at the moment the timer fires: the requests the attempt has sent
  are counted and nothing it would have learned from the response is recorded. What the
  abandoned attempt does afterwards is outside this sequential model.
\<close>

definition defaultCalculateDelay :: "AttemptContext \<Rightarrow> AttemptOptions \<Rightarrow> rat" where
  "defaultCalculateDelay ctx opts =
     (if delay opts = 0 then 0
      else if factor opts \<noteq> 0
        then of_int (round (of_nat (delay opts) * factor opts ^ (attemptNum ctx - 1)))
        else of_nat (delay opts))"

text \<open>
  \<open>useAttempt\<close> is the decrement of \<open>attemptsRemaining\<close> at the start of an attempt (it
  stays \<open>- 1\<close> when there is no bound); \<open>nextAttempt\<close> and \<open>backoff\<close> are the increment
  of \<open>attemptNum\<close> and the delay before the next attempt.
\<close>

definition useAttempt :: "AttemptContext \<Rightarrow> AttemptContext" where
  "useAttempt ctx =
     (if attemptsRemaining ctx > 0
      then ctx\<lparr>attemptsRemaining := attemptsRemaining ctx - 1\<rparr> else ctx)"

definition nextAttempt :: "AttemptContext \<Rightarrow> AttemptContext" where
  "nextAttempt ctx = ctx\<lparr>attemptNum := attemptNum ctx + 1\<rparr>"

definition backoff :: "AttemptOptions \<Rightarrow> AttemptContext \<Rightarrow> state \<Rightarrow> state" where
  "backoff opts ctx s =
     (let d = defaultCalculateDelay ctx opts in if d \<noteq> 0 then sleep d s else s)"

text \<open>
  An attempt that settles after \<open>dt\<close> seconds settles before its timer fires, and the
  timer fires in an attempt that takes the clock from that of \<open>s\<close> to that of \<open>s1\<close>.
\<close>

definition arrivesInTime :: "AttemptOptions \<Rightarrow> rat \<Rightarrow> bool" where
  "arrivesInTime opts dt = (timeout opts = 0 \<or> dt < waited (of_nat (timeout opts)) / 1000)"

definition timerFires :: "AttemptOptions \<Rightarrow> state \<Rightarrow> state \<Rightarrow> bool" where
  "timerFires opts s s1 = (\<not> arrivesInTime opts (now s1 - now s))"

definition abandoned :: "AttemptOptions \<Rightarrow> state \<Rightarrow> state \<Rightarrow> state" where
  "abandoned opts s s1 =
     s\<lparr>now := now s + waited (of_nat (timeout opts)) / 1000,
       tokenRequests := tokenRequests s1, apiRequests := apiRequests s1\<rparr>"

fun makeAttempt ::
  "nat \<Rightarrow> AttemptOptions \<Rightarrow> (state \<Rightarrow> 'a result \<times> state) \<Rightarrow>
   (error \<Rightarrow> AttemptContext \<Rightarrow> state \<Rightarrow> AttemptContext result \<times> state) \<Rightarrow>
   AttemptContext \<Rightarrow> state \<Rightarrow> 'a result \<times> state" where
  "makeAttempt 0 opts attemptFunc handleError ctx s = (Pending, s)"
| "makeAttempt (Suc k) opts attemptFunc handleError ctx s =
     (if aborted ctx then (Threw AttemptAborted, s)
      else
        case attemptFunc s of
          (res, s1) \<Rightarrow>
            if timerFires opts s s1 then (Threw AttemptTimeout, abandoned opts s s1)
            else
              (case res of
                 Returned v \<Rightarrow> (Returned v, s1)
               | Pending \<Rightarrow> (Pending, s1)
               | Threw err \<Rightarrow>
                   (case handleError err (useAttempt ctx) s1 of
                      (Threw e, s2) \<Rightarrow> (Threw e, s2)
                    | (Pending, s2) \<Rightarrow> (Pending, s2)
                    | (Returned ctx2, s2) \<Rightarrow>
                        if aborted ctx2 \<or> attemptsRemaining ctx2 = 0 then (Threw err, s2)
                        else makeAttempt k opts attemptFunc handleError
                               (nextAttempt ctx2) (backoff opts (nextAttempt ctx2) s2))))"

definition initialContext :: "AttemptOptions \<Rightarrow> AttemptContext" where
  "initialContext opts =
     \<lparr>attemptNum = 0,
      attemptsRemaining = (if maxAttempts opts \<noteq> 0 then int (maxAttempts opts) else - 1),
      aborted = False\<rparr>"

definition retry ::
  "nat \<Rightarrow> AttemptOptions \<Rightarrow> (state \<Rightarrow> 'a result \<times> state) \<Rightarrow>
   (error \<Rightarrow> AttemptContext \<Rightarrow> state \<Rightarrow> AttemptContext result \<times> state) \<Rightarrow>
   state \<Rightarrow> 'a result \<times> state" where
  "retry k opts attemptFunc handleError s =
     makeAttempt k opts attemptFunc handleError (initialContext opts) s"

section \<open>Token store and authenticator\<close>

definition fetchToken :: "'r server \<Rightarrow> state \<Rightarrow> token_response outcome \<times> state" where
  "fetchToken srv s =
     (case tokenEndpoint srv (tokenRequests s) of
        (dt, out) \<Rightarrow> (out, s\<lparr>now := now s + dt, tokenRequests := Suc (tokenRequests s)\<rparr>))"

definition authRequestAttempt :: "'r server \<Rightarrow> state \<Rightarrow> token_response result \<times> state" where
  "authRequestAttempt srv s =
     (case fetchToken srv s of
        (Rejected, s1) \<Rightarrow> (Threw FetchError, s1)
      | (Responded r, s1) \<Rightarrow>
          if ok (tokenStatus r) then (Returned r, s1)
          else (Threw (IntegrationProviderAPIError (tokenStatus r)), s1))"

text \<open>The \<^verbatim>\<open>handleError\<close> closure of \<^verbatim>\<open>requestOAuth2Token\<close>.\<close>

definition authHandleError ::
  "error \<Rightarrow> AttemptContext \<Rightarrow> state \<Rightarrow> AttemptContext result \<times> state" where
  "authHandleError err ctx s =
     (let ctx1 = (if status_of err = Some 400 then ctx\<lparr>aborted := True\<rparr> else ctx)
      in if status_of err = Some 403
         then (Threw (IntegrationProviderAuthenticationError 403), s)
         else (Returned ctx1, s))"

definition requestOAuth2Token :: "nat \<Rightarrow> 'r server \<Rightarrow> state \<Rightarrow> OAuth2Token result \<times> state" where
  "requestOAuth2Token k srv s =
     (case retry k (attemptOptions s) (authRequestAttempt srv) authHandleError s of
        (Returned r, s1) \<Rightarrow>
          (Returned \<lparr>tokenStr = access_token r, expiresAt = now s1 + expires_in r\<rparr>, s1)
      | (Threw e, s1) \<Rightarrow> (Threw e, s1)
      | (Pending, s1) \<Rightarrow> (Pending, s1))"

definition isValidToken :: "OAuth2Token \<Rightarrow> rat \<Rightarrow> bool" where
  "isValidToken t unixTimeNow = (expiresAt t > unixTimeNow)"

definition authenticate :: "nat \<Rightarrow> 'r server \<Rightarrow> state \<Rightarrow> OAuth2Token result \<times> state" where
  "authenticate k srv s =
     (case (case token s of None \<Rightarrow> None
                          | Some t \<Rightarrow> if isValidToken t (now s) then Some t else None) of
        Some t \<Rightarrow> (Returned t, s)
      | None \<Rightarrow>
          (case requestOAuth2Token k srv s of
             (Returned t, s1) \<Rightarrow> (Returned t, s1\<lparr>token := Some t\<rparr>)
           | (Threw e, s1) \<Rightarrow> (Threw e, s1)
           | (Pending, s1) \<Rightarrow> (Pending, s1)))"

section \<open>Rate limiter\<close>

text \<open>
  \<^verbatim>\<open>handle429Error\<close>. The conditional on \<^verbatim>\<open>retryAfter\<close> and the first conjunct of
  the cooldown test are JavaScript truthiness tests: a number is truthy unless it is 0.
  The method reads \<^verbatim>\<open>this.rateLimitState.retryAfter\<close>, a \<open>TypeError\<close> while no
  response has been seen yet.
\<close>

definition timeToSleepInSeconds :: "RateLimitState \<Rightarrow> rat \<Rightarrow> rat" where
  "timeToSleepInSeconds rl unixTimeNow =
     (case retryAfter rl of
        None \<Rightarrow> 0
      | Some r \<Rightarrow> if r \<noteq> 0 then r + 60 - unixTimeNow else 0)"

definition handle429Error :: "state \<Rightarrow> unit result \<times> state" where
  "handle429Error s =
     (case rateLimitState s of
        None \<Rightarrow> (Threw TypeError, s)
      | Some rl \<Rightarrow>
          let unixTimeNow = now s;
              s1 = sleep (timeToSleepInSeconds rl unixTimeNow * 1000) s
          in if limitRemaining rl \<noteq> 0 \<and> limitRemaining rl \<le> reserveLimit (rateLimitConfig s1)
             then (Returned (), sleep (cooldownPeriod (rateLimitConfig s1)) s1)
             else (Returned (), s1))"

section \<open>Retry engine for resource requests\<close>

definition fetchApi :: "'r server \<Rightarrow> state \<Rightarrow> 'r api_response outcome \<times> state" where
  "fetchApi srv s =
     (case apiEndpoint srv (apiRequests s) of
        (dt, out) \<Rightarrow> (out, s\<lparr>now := now s + dt, apiRequests := Suc (apiRequests s)\<rparr>))"

text \<open>\<^verbatim>\<open>Number(h)\<close> of a header: \<^verbatim>\<open>null\<close> and the empty string give 0.\<close>

definition Number :: "rat option \<Rightarrow> rat" where
  "Number h = (case h of None \<Rightarrow> 0 | Some v \<Rightarrow> v)"

text \<open>The value assigned to \<^verbatim>\<open>this.rateLimitState\<close> after a response.\<close>

definition rateLimitOf :: "'r api_response \<Rightarrow> RateLimitState" where
  "rateLimitOf r =
     \<lparr>limitRemaining = Number (xRateLimitRemaining r),
      perMinuteLimit = Number (xRateLimitLimit r),
      retryAfter = (case xRateLimitRetryAfter r of
                      None \<Rightarrow> None
                    | Some v \<Rightarrow> Some (Number (Some v)))\<rparr>"

definition requestAttempt :: "'r server \<Rightarrow> state \<Rightarrow> 'r ResourcesResponse result \<times> state" where
  "requestAttempt srv s =
     (case fetchApi srv s of
        (Rejected, s1) \<Rightarrow> (Threw FetchError, s1)
      | (Responded r, s1) \<Rightarrow>
          let s2 = s1\<lparr>rateLimitState := Some (rateLimitOf r)\<rparr>
          in if ok (status r) then (Returned (json r), s2)
             else if status r = 401
               then (Threw (IntegrationProviderAuthenticationError (status r)), s2)
             else if status r = 403
               then (Threw (IntegrationProviderAuthorizationError (status r)), s2)
             else (Threw (IntegrationProviderAPIError (status r)), s2))"

text \<open>
  The \<^verbatim>\<open>handleError\<close> closure of \<^verbatim>\<open>executeAPIRequestWithRetries\<close>: three
  \<^verbatim>\<open>if\<close> statements in sequence, each run only when the one before returned.
\<close>

definition on401 ::
  "nat \<Rightarrow> 'r server \<Rightarrow> error \<Rightarrow> AttemptContext \<Rightarrow> state \<Rightarrow> AttemptContext result \<times> state" where
  "on401 k srv err ctx s =
     (if status_of err = Some 401
      then if attemptNum ctx > 1 then (Returned (ctx\<lparr>aborted := True\<rparr>), s)
           else (case authenticate k srv s of
                   (Returned t, s1) \<Rightarrow> (Returned ctx, s1)
                 | (Threw e, s1) \<Rightarrow> (Threw e, s1)
                 | (Pending, s1) \<Rightarrow> (Pending, s1))
      else (Returned ctx, s))"

definition on403 :: "error \<Rightarrow> AttemptContext \<Rightarrow> AttemptContext" where
  "on403 err ctx = (if status_of err = Some 403 then ctx\<lparr>aborted := True\<rparr> else ctx)"

definition on429 :: "error \<Rightarrow> AttemptContext \<Rightarrow> state \<Rightarrow> AttemptContext result \<times> state" where
  "on429 err ctx s =
     (if status_of err = Some 429
      then (case handle429Error s of
              (Returned u, s1) \<Rightarrow> (Returned ctx, s1)
            | (Threw e, s1) \<Rightarrow> (Threw e, s1)
            | (Pending, s1) \<Rightarrow> (Pending, s1))
      else (Returned ctx, s))"

definition apiHandleError ::
  "nat \<Rightarrow> 'r server \<Rightarrow> error \<Rightarrow> AttemptContext \<Rightarrow> state \<Rightarrow> AttemptContext result \<times> state" where
  "apiHandleError k srv err ctx s =
     (case on401 k srv err ctx s of
        (Returned ctx1, s1) \<Rightarrow> on429 err (on403 err ctx1) s1
      | (Threw e, s1) \<Rightarrow> (Threw e, s1)
      | (Pending, s1) \<Rightarrow> (Pending, s1))"

definition executeAPIRequestWithRetries ::
  "nat \<Rightarrow> 'r server \<Rightarrow> state \<Rightarrow> 'r ResourcesResponse result \<times> state" where
  "executeAPIRequestWithRetries k srv s =
     (case authenticate k srv s of
        (Returned t, s1) \<Rightarrow>
          retry k (attemptOptions s1) (requestAttempt srv) (apiHandleError k srv) s1
      | (Threw e, s1) \<Rightarrow> (Threw e, s1)
      | (Pending, s1) \<Rightarrow> (Pending, s1))"

section \<open>Paginator\<close>

text \<open>
  The three \<^verbatim>\<open>logger.info\<close> calls of the loop body, in the order the body makes them:
  the request about to be sent (with the \<open>paginationParams\<close> that \<^verbatim>\<open>toQueryString\<close> turns
  into its URL), the details of the response, and the state after the request. The
  servers of this model answer by position, so the URL itself is left out, as are the
  other log lines of the client.
\<close>

datatype plog =
    RequestLogged "PaginationMeta option"
  | ResponseDetails "PaginationMeta option" nat
  | PostRequestState nat json_total bool

text \<open>
  \<^verbatim>\<open>seen >= total\<close>: false when \<^verbatim>\<open>total\<close> is \<^verbatim>\<open>undefined\<close> (it converts to
  \<^verbatim>\<open>NaN\<close>), and the comparison with 0 when it is \<^verbatim>\<open>null\<close>.
\<close>

definition geTotal :: "nat \<Rightarrow> json_total \<Rightarrow> bool" where
  "geTotal seen tot =
     (case tot of
        TotalAbsent \<Rightarrow> False
      | TotalNull \<Rightarrow> int seen \<ge> 0
      | TotalNumber t \<Rightarrow> int seen \<ge> t)"

text \<open>
  The \<^verbatim>\<open>do ... while (!finished)\<close> of \<^verbatim>\<open>paginateResources\<close>, from the values of
  \<open>seen\<close> and \<open>paginationParams\<close> at the head of the body. \<open>n\<close> bounds the iterations
  the model follows and \<open>k\<close> the attempts of every request; the result carries the log
  lines written from this point on. Reading \<^verbatim>\<open>paginationParams.total\<close> of a response
  without pagination data is a \<open>TypeError\<close>.
\<close>

fun paginateLoop ::
  "nat \<Rightarrow> nat \<Rightarrow> 'r server \<Rightarrow> ('r list \<Rightarrow> state \<Rightarrow> unit result \<times> state) \<Rightarrow>
   nat \<Rightarrow> PaginationMeta option \<Rightarrow> state \<Rightarrow> unit result \<times> plog list \<times> state" where
  "paginateLoop 0 k srv callback seen paginationParams s = (Pending, [], s)"
| "paginateLoop (Suc n) k srv callback seen paginationParams s =
     (case executeAPIRequestWithRetries k srv s of
        (Threw e, s1) \<Rightarrow> (Threw e, [RequestLogged paginationParams], s1)
      | (Pending, s1) \<Rightarrow> (Pending, [RequestLogged paginationParams], s1)
      | (Returned response, s1) \<Rightarrow>
          (case callback (resources response) s1 of
             (Threw e, s2) \<Rightarrow> (Threw e, [RequestLogged paginationParams], s2)
           | (Pending, s2) \<Rightarrow> (Pending, [RequestLogged paginationParams], s2)
           | (Returned u, s2) \<Rightarrow>
               (case pagination response of
                  None \<Rightarrow>
                    (Threw TypeError,
                     [RequestLogged paginationParams,
                      ResponseDetails None (length (resources response))], s2)
                | Some meta \<Rightarrow>
                    let seen1 = seen + length (resources response);
                        total1 = totalCount meta;
                        finished = (seen1 = 0 \<or> geTotal seen1 total1);
                        logged = [RequestLogged paginationParams,
                                  ResponseDetails (Some meta) (length (resources response)),
                                  PostRequestState seen1 total1 finished]
                    in if finished then (Returned (), logged, s2)
                       else (case paginateLoop n k srv callback seen1 (Some meta) s2 of
                               (res, rest, s3) \<Rightarrow> (res, logged @ rest, s3)))))"

definition paginateResources ::
  "nat \<Rightarrow> nat \<Rightarrow> 'r server \<Rightarrow> ('r list \<Rightarrow> state \<Rightarrow> unit result \<times> state) \<Rightarrow>
   state \<Rightarrow> unit result \<times> plog list \<times> state" where
  "paginateResources n k srv callback s = paginateLoop n k srv callback 0 None s"

section \<open>Properties of a pagination log\<close>

text \<open>
  The progress property as the specification words it: from one post-request state to
  the next \<open>seen\<close> does not decrease, and it strictly increases unless \<open>finished\<close>
  is set. \<open>prev\<close> is the value of \<open>seen\<close> before the first logged iteration.
\<close>

fun seenAdvances :: "nat \<Rightarrow> plog list \<Rightarrow> bool" where
  "seenAdvances prev [] = True"
| "seenAdvances prev (PostRequestState sn tot fin # es) =
     (prev \<le> sn \<and> (prev < sn \<or> fin) \<and> seenAdvances sn es)"
| "seenAdvances prev (RequestLogged p # es) = seenAdvances prev es"
| "seenAdvances prev (ResponseDetails m len # es) = seenAdvances prev es"

fun seenNeverDecreases :: "nat \<Rightarrow> plog list \<Rightarrow> bool" where
  "seenNeverDecreases prev [] = True"
| "seenNeverDecreases prev (PostRequestState sn tot fin # es) =
     (prev \<le> sn \<and> seenNeverDecreases sn es)"
| "seenNeverDecreases prev (RequestLogged p # es) = seenNeverDecreases prev es"
| "seenNeverDecreases prev (ResponseDetails m len # es) = seenNeverDecreases prev es"

text \<open>
  Every post-request state reports the previous \<open>seen\<close> plus the length of the page
  logged just before it (\<open>len\<close> is the length of the page in flight).
\<close>

fun seenGrowsByPage :: "nat \<Rightarrow> nat \<Rightarrow> plog list \<Rightarrow> bool" where
  "seenGrowsByPage prev len [] = True"
| "seenGrowsByPage prev len (RequestLogged p # es) = seenGrowsByPage prev len es"
| "seenGrowsByPage prev len (ResponseDetails m n # es) = seenGrowsByPage prev n es"
| "seenGrowsByPage prev len (PostRequestState sn tot fin # es) =
     (sn = prev + len \<and> seenGrowsByPage sn 0 es)"

text \<open>
  The exit rule: \<open>finished\<close> is set exactly when \<open>seen = 0\<close> or \<open>seen \<ge> total\<close>; a
  state with \<open>finished\<close> set is the last line of the log and the run has returned;
  after a state without it the next request is logged, unless the model's fuel ended
  there. A run returns in no other way.
\<close>

fun exitsWhenFinished :: "unit result \<Rightarrow> plog list \<Rightarrow> bool" where
  "exitsWhenFinished res [] = (res \<noteq> Returned ())"
| "exitsWhenFinished res (PostRequestState sn tot fin # es) =
     (fin = (sn = 0 \<or> geTotal sn tot) \<and>
      (if fin then es = [] \<and> res = Returned ()
       else (case es of
               [] \<Rightarrow> res = Pending
             | RequestLogged p # es' \<Rightarrow> exitsWhenFinished res es
             | ResponseDetails m n # es' \<Rightarrow> False
             | PostRequestState sn' tot' fin' # es' \<Rightarrow> False)))"
| "exitsWhenFinished res (RequestLogged p # es) = exitsWhenFinished res es"
| "exitsWhenFinished res (ResponseDetails m n # es) = exitsWhenFinished res es"



text \<open>The number of page requests a log records.\<close>

fun pageRequests :: "plog list \<Rightarrow> nat" where
  "pageRequests [] = 0"
| "pageRequests (RequestLogged p # es) = Suc (pageRequests es)"
| "pageRequests (ResponseDetails m n # es) = pageRequests es"
| "pageRequests (PostRequestState sn tot fin # es) = pageRequests es"

abbreviation runResult :: "unit result \<times> plog list \<times> state \<Rightarrow> unit result" where
  "runResult run \<equiv> fst run"

abbreviation runLog :: "unit result \<times> plog list \<times> state \<Rightarrow> plog list" where
  "runLog run \<equiv> fst (snd run)"

section \<open>The rate-limit wait as the specification words it\<close>


section \<open>Concrete clients and servers\<close>

text \<open>A token that expires one second after unix time 1700000000.\<close>

definition heldToken :: OAuth2Token where
  "heldToken = \<lparr>tokenStr = ''held'', expiresAt = 1700000001\<rparr>"

text \<open>A client with the default configuration that holds \<open>heldToken\<close> when its clock reads \<open>t\<close>.\<close>

definition clientAt :: "rat \<Rightarrow> state" where
  "clientAt t =
     \<lparr>token = Some heldToken, rateLimitState = None,
      rateLimitConfig = DEFAULT_RATE_LIMIT_CONFIG, attemptOptions = DEFAULT_ATTEMPT_OPTIONS,
      now = t, tokenRequests = 0, apiRequests = 0, sleeps = []\<rparr>"

text \<open>A server that answers from two finite scripts and refuses connections afterwards.\<close>

definition scripted ::
  "(rat \<times> token_response outcome) list \<Rightarrow> (rat \<times> string api_response outcome) list \<Rightarrow>
   string server" where
  "scripted ts rs =
     \<lparr>tokenEndpoint = (\<lambda>i. if i < length ts then ts ! i else (0, Rejected)),
      apiEndpoint = (\<lambda>i. if i < length rs then rs ! i else (0, Rejected))\<rparr>"

definition grant :: token_response where
  "grant = \<lparr>tokenStatus = 201, access_token = ''fresh'', expires_in = 1799\<rparr>"


text \<open>Pagination data with the given total, and a page of device identifiers carrying it.\<close>

definition metaOf :: "json_total \<Rightarrow> PaginationMeta" where
  "metaOf tot = \<lparr>limit = Some 100, offset = None, after = None, totalCount = tot\<rparr>"

definition pageOf :: "string list \<Rightarrow> json_total \<Rightarrow> string ResourcesResponse" where
  "pageOf xs tot = \<lparr>resources = xs, pagination = Some (metaOf tot)\<rparr>"

text \<open>A response with the given status and body, 50 requests left of 100 per minute.\<close>

definition respond :: "nat \<Rightarrow> string ResourcesResponse \<Rightarrow> rat \<times> string api_response outcome" where
  "respond st body =
     (1 / 4, Responded \<lparr>status = st, xRateLimitRemaining = Some 50, xRateLimitLimit = Some 100,
                        xRateLimitRetryAfter = None, json = body\<rparr>)"

text \<open>A 429 response: no request left, retry allowed from the given unix time.\<close>

definition tooManyRequests :: "rat \<Rightarrow> rat \<times> string api_response outcome" where
  "tooManyRequests t =
     (0, Responded \<lparr>status = 429, xRateLimitRemaining = Some 0, xRateLimitLimit = Some 100,
                    xRateLimitRetryAfter = Some t, json = pageOf [] TotalAbsent\<rparr>)"



text \<open>A page handler that returns at once.\<close>

definition accept :: "string list \<Rightarrow> state \<Rightarrow> unit result \<times> state" where
  "accept xs s = (Returned (), s)"


definition twice401Server :: "string server" where
  "twice401Server =
     scripted [(1 / 2, Responded grant)]
       [respond 401 (pageOf [] TotalAbsent), respond 401 (pageOf [] TotalAbsent),
        respond 200 (pageOf [''a''] (TotalNumber 1))]"

definition stallServer :: "string server" where
  "stallServer =
     scripted []
       [respond 200 (pageOf [''a''] (TotalNumber 5)),
        respond 200 (pageOf [] (TotalNumber 5)),
        respond 200 (pageOf [''b'', ''c'', ''d'', ''e''] (TotalNumber 5))]"

definition twoPageServer :: "string server" where
  "twoPageServer =
     scripted []
       [respond 200 (pageOf [''a''] (TotalNumber 2)), respond 200 (pageOf [''b''] (TotalNumber 2))]"



definition emptyServer :: "string server" where
  "emptyServer = scripted [] [respond 200 (pageOf [] (TotalNumber 7))]"


section \<open>Facts about the timers and the retry driver\<close>

lemma sleep_fields [simp]:
  "tokenRequests (sleep ms s) = tokenRequests s"
  "apiRequests (sleep ms s) = apiRequests s"
  "token (sleep ms s) = token s"
  "rateLimitState (sleep ms s) = rateLimitState s"
  "rateLimitConfig (sleep ms s) = rateLimitConfig s"
  "attemptOptions (sleep ms s) = attemptOptions s"
  "sleeps (sleep ms s) = sleeps s @ [ms]"
  "now (sleep ms s) = now s + waited ms / 1000"
  by (simp_all add: sleep_def)

lemma backoff_tokenRequests [simp]: "tokenRequests (backoff opts ctx s) = tokenRequests s"
  by (simp add: backoff_def Let_def)

lemma abandoned_fields [simp]:
  "tokenRequests (abandoned opts s s1) = tokenRequests s1"
  "apiRequests (abandoned opts s s1) = apiRequests s1"
  "token (abandoned opts s s1) = token s"
  "sleeps (abandoned opts s s1) = sleeps s"
  by (simp_all add: abandoned_def)

text \<open>One attempt that settles in time: the driver's equation without the timer.\<close>

lemma makeAttempt_in_time:
  assumes "\<not> aborted ctx" and "f s = (res, s1)" and "\<not> timerFires opts s s1"
  shows "makeAttempt (Suc k) opts f h ctx s =
     (case res of
        Returned v \<Rightarrow> (Returned v, s1)
      | Pending \<Rightarrow> (Pending, s1)
      | Threw err \<Rightarrow>
          (case h err (useAttempt ctx) s1 of
             (Threw e, s2) \<Rightarrow> (Threw e, s2)
           | (Pending, s2) \<Rightarrow> (Pending, s2)
           | (Returned ctx2, s2) \<Rightarrow>
               if aborted ctx2 \<or> attemptsRemaining ctx2 = 0 then (Threw err, s2)
               else makeAttempt k opts f h (nextAttempt ctx2)
                      (backoff opts (nextAttempt ctx2) s2)))"
  using assms by simp

lemma makeAttempt_timed_out:
  assumes "\<not> aborted ctx" and "f s = (res, s1)" and "timerFires opts s s1"
  shows "makeAttempt (Suc k) opts f h ctx s = (Threw AttemptTimeout, abandoned opts s s1)"
  using assms by simp

text \<open>
  A reflexive and transitive relation between states that every attempt, every handler
  call, every sleep and every abandoned attempt respects holds between the start and
  the end of a sequence.
\<close>

lemma makeAttempt_preserves:
  assumes refl: "\<And>s. P s s"
    and trans: "\<And>a b c. P a b \<Longrightarrow> P b c \<Longrightarrow> P a c"
    and att: "\<And>s. P s (snd (f s))"
    and hdl: "\<And>e c s. P s (snd (h e c s))"
    and slp: "\<And>d s. P s (sleep d s)"
    and abn: "\<And>s s1. P s s1 \<Longrightarrow> P s (abandoned opts s s1)"
  shows "P s (snd (makeAttempt k opts f h ctx s))"
proof (induction k arbitrary: ctx s)
  case 0
  show ?case by (simp add: refl)
next
  case (Suc k)
  obtain res s1 where fs: "f s = (res, s1)" by (cases "f s")
  from att [of s] fs have p1: "P s s1" by simp
  show ?case
  proof (cases "aborted ctx")
    case True
    then show ?thesis by (simp add: refl)
  next
    case live: False
    show ?thesis
    proof (cases "timerFires opts s s1")
      case True
      from makeAttempt_timed_out [where f = f and s = s, OF live fs True] abn [OF p1] show ?thesis by simp
    next
      case inTime: False
      note step = makeAttempt_in_time [where f = f and s = s and k = k and h = h, OF live fs inTime]
      show ?thesis
      proof (cases res)
        case (Returned v)
        with step p1 show ?thesis by simp
      next
        case Pending
        with step p1 show ?thesis by simp
      next
        case (Threw err)
        obtain res2 s2 where hs: "h err (useAttempt ctx) s1 = (res2, s2)"
          by (cases "h err (useAttempt ctx) s1")
        from hdl [of s1 err "useAttempt ctx"] hs have "P s1 s2" by simp
        with p1 have p2: "P s s2" by (rule trans)
        show ?thesis
        proof (cases res2)
          case (Threw e2)
          with step \<open>res = Threw err\<close> hs p2 show ?thesis by simp
        next
          case Pending
          with step \<open>res = Threw err\<close> hs p2 show ?thesis by simp
        next
          case (Returned ctx2)
          show ?thesis
          proof (cases "aborted ctx2 \<or> attemptsRemaining ctx2 = 0")
            case True
            with step \<open>res = Threw err\<close> hs Returned p2 show ?thesis by simp
          next
            case False
            have "P s2 (backoff opts (nextAttempt ctx2) s2)"
              by (simp add: backoff_def Let_def refl slp)
            with p2 have "P s (backoff opts (nextAttempt ctx2) s2)" by (rule trans)
            from this Suc.IH
            have "P s (snd (makeAttempt k opts f h (nextAttempt ctx2)
                              (backoff opts (nextAttempt ctx2) s2)))"
              by (rule trans)
            with step \<open>res = Threw err\<close> hs Returned False show ?thesis by simp
          qed
        qed
      qed
    qed
  qed
qed

section \<open>Facts about the token exchange\<close>

lemma not_ok_400 [simp]: "\<not> ok 400" and not_ok_401 [simp]: "\<not> ok 401"
  and not_ok_403 [simp]: "\<not> ok 403" and not_ok_429 [simp]: "\<not> ok 429"
  by (simp_all add: ok_def)

lemma authRequestAttempt_cases:
  "authRequestAttempt srv s = (res, s1) \<Longrightarrow>
     s1 = s\<lparr>now := now s + fst (tokenEndpoint srv (tokenRequests s)),
            tokenRequests := Suc (tokenRequests s)\<rparr> \<and>
     res = (case snd (tokenEndpoint srv (tokenRequests s)) of
              Rejected \<Rightarrow> Threw FetchError
            | Responded r \<Rightarrow> if ok (tokenStatus r) then Returned r
                             else Threw (IntegrationProviderAPIError (tokenStatus r)))"
  by (auto simp: authRequestAttempt_def fetchToken_def split: prod.splits outcome.splits if_splits)

lemma authRequestAttempt_responded:
  assumes "tokenEndpoint srv (tokenRequests s) = (dt, out)"
  shows "authRequestAttempt srv s =
     ((case out of
         Rejected \<Rightarrow> Threw FetchError
       | Responded r \<Rightarrow> if ok (tokenStatus r) then Returned r
                        else Threw (IntegrationProviderAPIError (tokenStatus r))),
      s\<lparr>now := now s + dt, tokenRequests := Suc (tokenRequests s)\<rparr>)"
  using assms by (simp add: authRequestAttempt_def fetchToken_def split: outcome.splits)

lemma timerFires_elapsed [simp]:
  "timerFires opts s (s\<lparr>now := now s + dt, tokenRequests := n\<rparr>) = (\<not> arrivesInTime opts dt)"
  "timerFires opts s (s\<lparr>now := now s + dt, apiRequests := m, rateLimitState := rl\<rparr>) =
     (\<not> arrivesInTime opts dt)"
  "timerFires opts s (s\<lparr>now := now s + dt, apiRequests := m\<rparr>) = (\<not> arrivesInTime opts dt)"
  by (simp_all add: timerFires_def)

lemma authHandleError_state: "snd (authHandleError err ctx s) = s"
  by (simp add: authHandleError_def Let_def)

lemma auth_attempts_monotone:
  "tokenRequests s \<le>
     tokenRequests (snd (makeAttempt k opts (authRequestAttempt srv) authHandleError ctx s))"
proof (rule makeAttempt_preserves [where P = "\<lambda>a b. tokenRequests a \<le> tokenRequests b"])
  show "tokenRequests s \<le> tokenRequests (snd (authRequestAttempt srv s))" for s
    using authRequestAttempt_cases [of srv s] by (cases "authRequestAttempt srv s") simp
  show "tokenRequests s \<le> tokenRequests (snd (authHandleError e c s))" for e c s
    by (simp add: authHandleError_state)
qed simp_all

lemma auth_attempts_returned:
  "makeAttempt k opts (authRequestAttempt srv) authHandleError ctx s = (Returned r, s1) \<Longrightarrow>
     \<exists>i dt. tokenRequests s \<le> i \<and> i < tokenRequests s1 \<and>
            tokenEndpoint srv i = (dt, Responded r) \<and> ok (tokenStatus r)"
proof (induction k arbitrary: ctx s)
  case 0
  then show ?case by simp
next
  case (Suc k)
  obtain res sa where att: "authRequestAttempt srv s = (res, sa)"
    by (cases "authRequestAttempt srv s")
  note shape = authRequestAttempt_cases [OF att]
  from Suc.prems have live: "\<not> aborted ctx" by (auto split: if_splits)
  from Suc.prems att live have inTime: "\<not> timerFires opts s sa" by (auto split: if_splits)
  note step = makeAttempt_in_time [where f = "authRequestAttempt srv" and s = s and k = k
      and h = authHandleError, OF live att inTime]
  show ?case
  proof (cases res)
    case (Returned v)
    with Suc.prems step have eq: "v = r" "sa = s1" by simp_all
    from shape Returned eq show ?thesis
      by (cases "tokenEndpoint srv (tokenRequests s)")
         (auto split: outcome.splits if_splits)
  next
    case Pending
    with Suc.prems step show ?thesis by simp
  next
    case (Threw err)
    obtain res2 where hs: "authHandleError err (useAttempt ctx) sa = (res2, sa)"
      using authHandleError_state [of err "useAttempt ctx" sa]
      by (cases "authHandleError err (useAttempt ctx) sa") simp
    show ?thesis
    proof (cases res2)
      case (Threw e2)
      with Suc.prems step \<open>res = Threw err\<close> hs show ?thesis by simp
    next
      case Pending
      with Suc.prems step \<open>res = Threw err\<close> hs show ?thesis by simp
    next
      case (Returned ctx2)
      with Suc.prems step \<open>res = Threw err\<close> hs
      have rec: "makeAttempt k opts (authRequestAttempt srv) authHandleError (nextAttempt ctx2)
                   (backoff opts (nextAttempt ctx2) sa) = (Returned r, s1)"
        by (simp split: if_splits)
      from Suc.IH [OF rec] obtain i dt where
        i: "tokenRequests (backoff opts (nextAttempt ctx2) sa) \<le> i" "i < tokenRequests s1"
           "tokenEndpoint srv i = (dt, Responded r)" "ok (tokenStatus r)"
        by blast
      from i(1) shape have "tokenRequests s \<le> i" by simp
      with i show ?thesis by blast
    qed
  qed
qed

lemma auth_attempts_send:
  assumes "\<not> aborted ctx"
  shows "tokenRequests s <
     tokenRequests (snd (makeAttempt (Suc k) opts (authRequestAttempt srv) authHandleError ctx s))"
proof -
  obtain res sa where att: "authRequestAttempt srv s = (res, sa)"
    by (cases "authRequestAttempt srv s")
  from authRequestAttempt_cases [OF att] have sa: "tokenRequests sa = Suc (tokenRequests s)"
    by simp
  show ?thesis
  proof (cases "timerFires opts s sa")
    case True
    from makeAttempt_timed_out [where f = "authRequestAttempt srv" and s = s, OF assms att True] sa show ?thesis by simp
  next
    case inTime: False
    note step = makeAttempt_in_time [where f = "authRequestAttempt srv" and s = s and k = k
      and h = authHandleError, OF assms att inTime]
    show ?thesis
    proof (cases res)
      case (Returned v)
      with step sa show ?thesis by simp
    next
      case Pending
      with step sa show ?thesis by simp
    next
      case (Threw err)
      obtain res2 where hs: "authHandleError err (useAttempt ctx) sa = (res2, sa)"
        using authHandleError_state [of err "useAttempt ctx" sa]
        by (cases "authHandleError err (useAttempt ctx) sa") simp
      show ?thesis
      proof (cases res2)
        case (Threw e2)
        with step \<open>res = Threw err\<close> hs sa show ?thesis by simp
      next
        case Pending
        with step \<open>res = Threw err\<close> hs sa show ?thesis by simp
      next
        case (Returned ctx2)
        have "tokenRequests sa \<le>
          tokenRequests (snd (makeAttempt k opts (authRequestAttempt srv) authHandleError
             (nextAttempt ctx2) (backoff opts (nextAttempt ctx2) sa)))"
          using auth_attempts_monotone [where s = "backoff opts (nextAttempt ctx2) sa"]
          by simp
        with step \<open>res = Threw err\<close> hs Returned sa show ?thesis by simp
      qed
    qed
  qed
qed

lemma requestOAuth2Token_returned:
  assumes "requestOAuth2Token k srv s = (Returned t, s1)"
  shows "\<exists>i dt r. tokenRequests s \<le> i \<and> i < tokenRequests s1 \<and>
           tokenEndpoint srv i = (dt, Responded r) \<and> ok (tokenStatus r) \<and>
           t = \<lparr>tokenStr = access_token r, expiresAt = now s1 + expires_in r\<rparr>"
proof -
  from assms obtain r where
    run: "makeAttempt k (attemptOptions s) (authRequestAttempt srv) authHandleError
            (initialContext (attemptOptions s)) s = (Returned r, s1)"
    and t: "t = \<lparr>tokenStr = access_token r, expiresAt = now s1 + expires_in r\<rparr>"
    by (auto simp: requestOAuth2Token_def retry_def split: prod.splits result.splits)
  from auth_attempts_returned [OF run] t show ?thesis by blast
qed

lemma requestOAuth2Token_state:
  "snd (requestOAuth2Token k srv s) =
     snd (makeAttempt k (attemptOptions s) (authRequestAttempt srv) authHandleError
            (initialContext (attemptOptions s)) s)"
  by (simp add: requestOAuth2Token_def retry_def split: prod.splits result.splits)

lemma requestOAuth2Token_sends:
  "tokenRequests s < tokenRequests (snd (requestOAuth2Token (Suc k) srv s))"
proof -
  have "\<not> aborted (initialContext (attemptOptions s))"
    by (simp add: initialContext_def)
  from auth_attempts_send [OF this, of s k "attemptOptions s" srv] show ?thesis
    by (simp only: requestOAuth2Token_state)
qed

text \<open>The first response grants a token in time: the exchange returns it.\<close>

lemma requestOAuth2Token_granted:
  assumes "tokenEndpoint srv (tokenRequests s) = (dt, Responded r)"
    and "ok (tokenStatus r)"
    and "arrivesInTime (attemptOptions s) dt"
  shows "requestOAuth2Token (Suc k) srv s =
     (Returned \<lparr>tokenStr = access_token r, expiresAt = now s + dt + expires_in r\<rparr>,
      s\<lparr>now := now s + dt, tokenRequests := Suc (tokenRequests s)\<rparr>)"
  using assms
  by (simp add: requestOAuth2Token_def retry_def initialContext_def
      authRequestAttempt_responded)

lemma authenticate_stale:
  assumes "token s = None \<or> (\<exists>t. token s = Some t \<and> expiresAt t \<le> now s)"
  shows "authenticate k srv s =
      (case requestOAuth2Token k srv s of
         (Returned t', s1) \<Rightarrow> (Returned t', s1\<lparr>token := Some t'\<rparr>)
       | (Threw e, s1) \<Rightarrow> (Threw e, s1)
       | (Pending, s1) \<Rightarrow> (Pending, s1))"
  using assms by (auto simp: authenticate_def isValidToken_def)

lemma authenticate_fresh:
  assumes "token s = Some t" and "now s < expiresAt t"
  shows "authenticate k srv s = (Returned t, s)"
  using assms by (simp add: authenticate_def isValidToken_def)



section \<open>Facts about the pagination loop\<close>

lemma paginateLoop_page:
  assumes "executeAPIRequestWithRetries k srv s = (Returned p, s1)"
    and "callback (resources p) s1 = (Returned (), s2)"
    and "pagination p = Some m"
  shows "paginateLoop (Suc n) k srv callback seen params s =
     (if seen + length (resources p) = 0 \<or> geTotal (seen + length (resources p)) (totalCount m)
      then (Returned (),
            [RequestLogged params, ResponseDetails (Some m) (length (resources p)),
             PostRequestState (seen + length (resources p)) (totalCount m) True], s2)
      else (runResult (paginateLoop n k srv callback (seen + length (resources p)) (Some m) s2),
            [RequestLogged params, ResponseDetails (Some m) (length (resources p)),
             PostRequestState (seen + length (resources p)) (totalCount m) False] @
            runLog (paginateLoop n k srv callback (seen + length (resources p)) (Some m) s2),
            snd (snd (paginateLoop n k srv callback (seen + length (resources p)) (Some m) s2))))"
  using assms by (simp add: Let_def split: prod.splits)

lemma paginateLoop_log_start:
  "runLog (paginateLoop n k srv callback seen params s) =
     (case n of
        0 \<Rightarrow> []
      | Suc m \<Rightarrow> RequestLogged params # tl (runLog (paginateLoop n k srv callback seen params s)))"
  by (cases n) (auto simp: Let_def split: prod.splits result.splits option.splits)

lemma seenGrowsByPage_loop:
  "seenGrowsByPage seen len (runLog (paginateLoop n k srv callback seen params s))"
proof (induction n arbitrary: seen params s len)
  case 0
  show ?case by simp
next
  case (Suc n)
  have step: "seenGrowsByPage (seen + l) 0 a"
    if "paginateLoop n k srv callback (seen + l) q s' = (r, a, b)" for l q s' r a b
    using Suc.IH [of "seen + l" 0 q s'] that by simp
  show ?case
    by (auto simp: Let_def split: prod.splits result.splits option.splits dest: step)
qed

lemma seenNeverDecreases_loop:
  "seenNeverDecreases seen (runLog (paginateLoop n k srv callback seen params s))"
proof (induction n arbitrary: seen params s)
  case 0
  show ?case by simp
next
  case (Suc n)
  have step: "seenNeverDecreases (seen + l) a"
    if "paginateLoop n k srv callback (seen + l) q s' = (r, a, b)" for l q s' r a b
    using Suc.IH [of "seen + l" q s'] that by simp
  show ?case
    by (auto simp: Let_def split: prod.splits result.splits option.splits dest: step)
qed

lemma exitsWhenFinished_loop:
  "exitsWhenFinished (runResult (paginateLoop n k srv callback seen params s))
     (runLog (paginateLoop n k srv callback seen params s))"
proof (induction n arbitrary: seen params s)
  case 0
  show ?case by simp
next
  case (Suc n)
  obtain r1 s1 where ex: "executeAPIRequestWithRetries k srv s = (r1, s1)"
    by (cases "executeAPIRequestWithRetries k srv s")
  show ?case
  proof (cases r1)
    case (Threw e)
    with ex show ?thesis by simp
  next
    case Pending
    with ex show ?thesis by simp
  next
    case (Returned p)
    obtain r2 s2 where cb: "callback (resources p) s1 = (r2, s2)"
      by (cases "callback (resources p) s1")
    show ?thesis
    proof (cases r2)
      case (Threw e)
      with ex \<open>r1 = Returned p\<close> cb show ?thesis by simp
    next
      case Pending
      with ex \<open>r1 = Returned p\<close> cb show ?thesis by simp
    next
      case r2: (Returned u)
      show ?thesis
      proof (cases "pagination p")
        case None
        with ex \<open>r1 = Returned p\<close> cb r2 show ?thesis by simp
      next
        case (Some m)
        from ex \<open>r1 = Returned p\<close> cb r2
        have ex': "executeAPIRequestWithRetries k srv s = (Returned p, s1)"
          and cb': "callback (resources p) s1 = (Returned (), s2)"
          by simp_all
        note page = paginateLoop_page [where callback = callback and n = n and seen = seen
            and params = params, OF ex' cb' Some]
        define sn where "sn = seen + length (resources p)"
        define rest where "rest = runLog (paginateLoop n k srv callback sn (Some m) s2)"
        define res where "res = runResult (paginateLoop n k srv callback sn (Some m) s2)"
        have ih: "exitsWhenFinished res rest"
          unfolding res_def rest_def by (rule Suc.IH)
        show ?thesis
        proof (cases "sn = 0 \<or> geTotal sn (totalCount m)")
          case True
          with page show ?thesis by (simp add: sn_def)
        next
          case False
          have tail: "(case rest of
                         [] \<Rightarrow> res = Pending
                       | RequestLogged q # es' \<Rightarrow> exitsWhenFinished res rest
                       | ResponseDetails mm nn # es' \<Rightarrow> False
                       | PostRequestState sn' tot' fin' # es' \<Rightarrow> False)"
          proof (cases n)
            case 0
            then show ?thesis by (simp add: rest_def res_def)
          next
            case (Suc j)
            with paginateLoop_log_start [of n k srv callback sn "Some m" s2]
            have "rest = RequestLogged (Some m) # tl rest" by (simp add: rest_def)
            then obtain es' where "rest = RequestLogged (Some m) # es'" by blast
            with ih show ?thesis by simp
          qed
          from False page tail show ?thesis
            by (simp add: sn_def [symmetric] rest_def [symmetric] res_def [symmetric])
        qed
      qed
    qed
  qed
qed




lemma paginateLoop_empty_first:
  assumes "executeAPIRequestWithRetries k srv s = (Returned p, s1)"
    and "resources p = []"
    and "fst (callback [] s1) \<noteq> Pending"
  shows "runResult (paginateLoop (Suc n) k srv callback 0 params s) \<noteq> Pending \<and>
         pageRequests (runLog (paginateLoop (Suc n) k srv callback 0 params s)) = 1"
  using assms
  by (cases "callback [] s1")
     (auto simp: Let_def split: prod.splits result.splits option.splits)


section \<open>Runs of the concrete clients\<close>

lemmas example_defs =
  scripted_def respond_def pageOf_def metaOf_def grant_def clientAt_def heldToken_def
  DEFAULT_ATTEMPT_OPTIONS_def DEFAULT_RATE_LIMIT_CONFIG_def

lemmas engine_defs =
  executeAPIRequestWithRetries_def authenticate_def isValidToken_def retry_def
  initialContext_def requestAttempt_def fetchApi_def rateLimitOf_def Number_def ok_def
  apiHandleError_def on401_def on403_def on429_def useAttempt_def nextAttempt_def
  backoff_def defaultCalculateDelay_def sleep_def waited_def TIMEOUT_MAX_def
  arrivesInTime_def timerFires_def abandoned_def

text \<open>The default timer of 180 s has not fired after a quarter or half of a second.\<close>

lemma default_in_time [simp]:
  "arrivesInTime DEFAULT_ATTEMPT_OPTIONS (1 / 4)"
  "arrivesInTime DEFAULT_ATTEMPT_OPTIONS (1 / 2)"
  by (simp_all add: arrivesInTime_def DEFAULT_ATTEMPT_OPTIONS_def waited_def TIMEOUT_MAX_def)

text \<open>
  With the attempt counter starting at 0, the second consecutive 401 is handled like the
  first, and the third attempt is made.
\<close>

lemma second_unauthorized_is_retried:
  "executeAPIRequestWithRetries (Suc (Suc (Suc 0))) twice401Server (clientAt 1699999000) =
     (Returned (pageOf [''a''] (TotalNumber 1)),
      (clientAt 1699999000)
        \<lparr>rateLimitState := Some \<lparr>limitRemaining = 50, perMinuteLimit = 100, retryAfter = None\<rparr>,
         now := 1699999000 + 1 / 4 + 30 + 1 / 4 + 60 + 1 / 4, apiRequests := 3,
         sleeps := [30000, 60000]\<rparr>)"
  by (simp add: twice401Server_def example_defs engine_defs)

lemma grant_run:
  "authenticate (Suc 0) (scripted [(1 / 2, Responded grant)] []) (clientAt 1700000002) =
     (Returned \<lparr>tokenStr = ''fresh'', expiresAt = 1700000002 + 1 / 2 + 1799\<rparr>,
      (clientAt 1700000002)
        \<lparr>token := Some \<lparr>tokenStr = ''fresh'', expiresAt = 1700000002 + 1 / 2 + 1799\<rparr>,
         now := 1700000002 + 1 / 2, tokenRequests := 1\<rparr>)"
  by (simp add: authenticate_def isValidToken_def clientAt_def heldToken_def
      requestOAuth2Token_def retry_def initialContext_def DEFAULT_ATTEMPT_OPTIONS_def
      authRequestAttempt_def fetchToken_def scripted_def grant_def ok_def
      arrivesInTime_def timerFires_def waited_def TIMEOUT_MAX_def)

lemma stall_run:
  "paginateResources (Suc (Suc (Suc 0))) (Suc 0) stallServer accept (clientAt 1699999000) =
     (Returned (),
      [RequestLogged None, ResponseDetails (Some (metaOf (TotalNumber 5))) 1,
       PostRequestState 1 (TotalNumber 5) False,
       RequestLogged (Some (metaOf (TotalNumber 5))),
       ResponseDetails (Some (metaOf (TotalNumber 5))) 0,
       PostRequestState 1 (TotalNumber 5) False,
       RequestLogged (Some (metaOf (TotalNumber 5))),
       ResponseDetails (Some (metaOf (TotalNumber 5))) 4,
       PostRequestState 5 (TotalNumber 5) True],
      (clientAt 1699999000)
        \<lparr>rateLimitState := Some \<lparr>limitRemaining = 50, perMinuteLimit = 100, retryAfter = None\<rparr>,
         now := 1699999000 + 1 / 4 + 1 / 4 + 1 / 4, apiRequests := 3\<rparr>)"
  by (simp add: paginateResources_def stallServer_def accept_def geTotal_def
      Let_def example_defs engine_defs)

lemma two_page_run:
  "paginateResources (Suc (Suc 0)) (Suc 0) twoPageServer accept (clientAt 1699999000) =
     (Returned (),
      [RequestLogged None, ResponseDetails (Some (metaOf (TotalNumber 2))) 1,
       PostRequestState 1 (TotalNumber 2) False,
       RequestLogged (Some (metaOf (TotalNumber 2))),
       ResponseDetails (Some (metaOf (TotalNumber 2))) 1,
       PostRequestState 2 (TotalNumber 2) True],
      (clientAt 1699999000)
        \<lparr>rateLimitState := Some \<lparr>limitRemaining = 50, perMinuteLimit = 100, retryAfter = None\<rparr>,
         now := 1699999000 + 1 / 4 + 1 / 4, apiRequests := 2\<rparr>)"
  by (simp add: paginateResources_def twoPageServer_def accept_def geTotal_def
      Let_def example_defs engine_defs)



lemma empty_request:
  "executeAPIRequestWithRetries (Suc 0) emptyServer (clientAt 1699999000) =
     (Returned (pageOf [] (TotalNumber 7)),
      (clientAt 1699999000)
        \<lparr>rateLimitState := Some \<lparr>limitRemaining = 50, perMinuteLimit = 100, retryAfter = None\<rparr>,
         now := 1699999000 + 1 / 4, apiRequests := 1\<rparr>)"
  by (simp add: emptyServer_def example_defs engine_defs)

lemma at_once_in_time [simp]: "arrivesInTime opts 0"
  by (auto simp: arrivesInTime_def waited_def TIMEOUT_MAX_def)


lemma pageOf_fields [simp]:
  "resources (pageOf xs tot) = xs"
  "pagination (pageOf xs tot) = Some (metaOf tot)"
  "totalCount (metaOf tot) = tot"
  by (simp_all add: pageOf_def metaOf_def)

lemma two_page_first:
  "executeAPIRequestWithRetries (Suc 0) twoPageServer (clientAt 1699999000) =
     (Returned (pageOf [''a''] (TotalNumber 2)),
      (clientAt 1699999000)
        \<lparr>rateLimitState := Some \<lparr>limitRemaining = 50, perMinuteLimit = 100, retryAfter = None\<rparr>,
         now := 1699999000 + 1 / 4, apiRequests := 1\<rparr>)"
  by (simp add: twoPageServer_def example_defs engine_defs)

lemma two_page_second:
  "executeAPIRequestWithRetries (Suc 0) twoPageServer
     ((clientAt 1699999000)
        \<lparr>rateLimitState := Some \<lparr>limitRemaining = 50, perMinuteLimit = 100, retryAfter = None\<rparr>,
         now := 1699999000 + 1 / 4, apiRequests := 1\<rparr>) =
     (Returned (pageOf [''b''] (TotalNumber 2)),
      (clientAt 1699999000)
        \<lparr>rateLimitState := Some \<lparr>limitRemaining = 50, perMinuteLimit = 100, retryAfter = None\<rparr>,
         now := 1699999000 + 1 / 4 + 1 / 4, apiRequests := 2\<rparr>)"
  by (simp add: twoPageServer_def example_defs engine_defs)


text \<open>
  A 403 that takes 200 seconds to arrive loses against the default timer of 180 s: the
  sequence rejects with the timeout and the response is not classified.
\<close>

lemma slow_response_times_out:
  "makeAttempt (Suc 0) DEFAULT_ATTEMPT_OPTIONS
     (requestAttempt (scripted [] [(200, snd (respond 403 (pageOf [] TotalAbsent)))]))
     (apiHandleError (Suc 0) (scripted [] [(200, snd (respond 403 (pageOf [] TotalAbsent)))]))
     (initialContext DEFAULT_ATTEMPT_OPTIONS) (clientAt 1699999000) =
       (Threw AttemptTimeout,
        (clientAt 1699999000)\<lparr>now := 1699999000 + 180, apiRequests := 1\<rparr>)"
  by (simp add: example_defs engine_defs)


section \<open>The claims\<close>





text \<open>
  C2. The code where the count is exactly 0: a 429 response that reports 0 requests remaining
  leaves \<open>limitRemaining = 0\<close>, which is below the reserve limit of 30, and
  \<open>handle429Error\<close> sleeps once, for the 70 seconds until a minute after \<open>retryAfter\<close>;
  the cooldown of 1000 ms does not follow.
\<close>

theorem cooldown_skipped_at_zero:
  "rateLimitState (snd (requestAttempt (scripted [] [tooManyRequests 1700000010])
                      (clientAt 1700000000))) =
     Some \<lparr>limitRemaining = 0, perMinuteLimit = 100, retryAfter = Some 1700000010\<rparr> \<and>
   reserveLimit (rateLimitConfig (clientAt 1700000000)) = 30 \<and>
   sleeps (snd (handle429Error (snd (requestAttempt (scripted [] [tooManyRequests 1700000010])
                                     (clientAt 1700000000))))) = [70000]"
  by (simp add: requestAttempt_def fetchApi_def Let_def scripted_def tooManyRequests_def
      rateLimitOf_def Number_def clientAt_def handle429Error_def timeToSleepInSeconds_def
      DEFAULT_RATE_LIMIT_CONFIG_def ok_def)





text \<open>
  C4, as stated, fails. The server sends a page of one item, then an empty page, then
  the remaining four of a total of five. After the second iteration \<open>seen\<close> is 1 as
  before and \<open>finished\<close> is not set, and the loop goes on.
\<close>

theorem seen_can_stall_counterexample:
  "\<not> seenAdvances 0
       (runLog (paginateResources (Suc (Suc (Suc 0))) (Suc 0) stallServer accept
                  (clientAt 1699999000)))"
  by (simp add: stall_run)

text \<open>
  C4, amended. In every run \<open>seen\<close> never decreases from one logged state to the next,
  and each logged state reports the previous \<open>seen\<close> plus the length of the page of
  that iteration: \<open>seen\<close> strictly increases on an iteration exactly when its page is
  not empty.
\<close>

theorem seen_accumulates_page_lengths:
  "seenNeverDecreases 0 (runLog (paginateResources n k srv callback s)) \<and>
   seenGrowsByPage 0 0 (runLog (paginateResources n k srv callback s))"
  by (simp add: paginateResources_def seenNeverDecreases_loop seenGrowsByPage_loop)

theorem seen_accumulates_page_lengths_witness:
  "seenGrowsByPage 0 0
     [RequestLogged None, ResponseDetails (Some (metaOf (TotalNumber 5))) 1,
      PostRequestState 1 (TotalNumber 5) False,
      RequestLogged (Some (metaOf (TotalNumber 5))),
      ResponseDetails (Some (metaOf (TotalNumber 5))) 0,
      PostRequestState 1 (TotalNumber 5) False,
      RequestLogged (Some (metaOf (TotalNumber 5))),
      ResponseDetails (Some (metaOf (TotalNumber 5))) 4,
      PostRequestState 5 (TotalNumber 5) True]"
  using seen_accumulates_page_lengths
    [of "Suc (Suc (Suc 0))" "Suc 0" stallServer accept "clientAt 1699999000"]
  unfolding stall_run by simp

text \<open>
  C5. When the first page request returns a page without items and the callback
  settles, the run settles after one page request, whatever total the page reports;
  when the callback returns and the page carries pagination data, the run returns with
  \<open>seen = 0\<close> and \<open>finished\<close> set. In every iteration whose request and callback return
  (the page carrying pagination data) the loop adds the length of the page to \<open>seen\<close>
  and returns exactly when the new \<open>seen\<close> is 0 or \<open>seen \<ge> total\<close> holds (false for a
  missing total, true for \<^verbatim>\<open>null\<close>); otherwise it goes on with the next iteration. In
  every run \<open>finished\<close> is set exactly under that condition, the run returns exactly
  after such a state, and after any other state the next page is requested.
\<close>

theorem empty_first_page_stops:
  "(executeAPIRequestWithRetries k srv s = (Returned p, sa) \<and> resources p = [] \<and>
    fst (callback [] sa) \<noteq> Pending \<longrightarrow>
      runResult (paginateResources (Suc n) k srv callback s) \<noteq> Pending \<and>
      pageRequests (runLog (paginateResources (Suc n) k srv callback s)) = 1) \<and>
   (executeAPIRequestWithRetries k srv s = (Returned p, sa) \<and> resources p = [] \<and>
    callback [] sa = (Returned (), sb) \<and> pagination p = Some m \<longrightarrow>
      paginateResources (Suc n) k srv callback s =
        (Returned (),
         [RequestLogged None, ResponseDetails (Some m) 0,
          PostRequestState 0 (totalCount m) True], sb)) \<and>
   (executeAPIRequestWithRetries k srv s = (Returned p, sa) \<and>
    callback (resources p) sa = (Returned (), sb) \<and> pagination p = Some m \<longrightarrow>
      paginateLoop (Suc n) k srv callback seen params s =
        (if seen + length (resources p) = 0 \<or>
            (case totalCount m of
               TotalAbsent \<Rightarrow> False
             | TotalNull \<Rightarrow> True
             | TotalNumber t \<Rightarrow> t \<le> int (seen + length (resources p)))
         then (Returned (),
               [RequestLogged params, ResponseDetails (Some m) (length (resources p)),
                PostRequestState (seen + length (resources p)) (totalCount m) True], sb)
         else (runResult (paginateLoop n k srv callback (seen + length (resources p))
                            (Some m) sb),
               [RequestLogged params, ResponseDetails (Some m) (length (resources p)),
                PostRequestState (seen + length (resources p)) (totalCount m) False] @
               runLog (paginateLoop n k srv callback (seen + length (resources p))
                         (Some m) sb),
               snd (snd (paginateLoop n k srv callback (seen + length (resources p))
                           (Some m) sb))))) \<and>
   exitsWhenFinished (runResult (paginateResources n k srv callback s))
     (runLog (paginateResources n k srv callback s))"
proof (intro conjI impI)
  assume "executeAPIRequestWithRetries k srv s = (Returned p, sa) \<and> resources p = [] \<and>
    fst (callback [] sa) \<noteq> Pending"
  then show "runResult (paginateResources (Suc n) k srv callback s) \<noteq> Pending"
    and "pageRequests (runLog (paginateResources (Suc n) k srv callback s)) = 1"
    using paginateLoop_empty_first [of k srv s p sa callback n None]
    by (simp_all add: paginateResources_def)
next
  assume "executeAPIRequestWithRetries k srv s = (Returned p, sa) \<and> resources p = [] \<and>
    callback [] sa = (Returned (), sb) \<and> pagination p = Some m"
  then show "paginateResources (Suc n) k srv callback s =
        (Returned (),
         [RequestLogged None, ResponseDetails (Some m) 0,
          PostRequestState 0 (totalCount m) True], sb)"
    by (simp add: paginateResources_def)
next
  assume a: "executeAPIRequestWithRetries k srv s = (Returned p, sa) \<and>
    callback (resources p) sa = (Returned (), sb) \<and> pagination p = Some m"
  have ge: "geTotal x (totalCount m) =
      (case totalCount m of
         TotalAbsent \<Rightarrow> False
       | TotalNull \<Rightarrow> True
       | TotalNumber t \<Rightarrow> t \<le> int x)" for x
    by (simp add: geTotal_def split: json_total.splits)
  from a have ex: "executeAPIRequestWithRetries k srv s = (Returned p, sa)"
    and cb: "callback (resources p) sa = (Returned (), sb)"
    and pg: "pagination p = Some m"
    by simp_all
  show "paginateLoop (Suc n) k srv callback seen params s =
        (if seen + length (resources p) = 0 \<or>
            (case totalCount m of
               TotalAbsent \<Rightarrow> False
             | TotalNull \<Rightarrow> True
             | TotalNumber t \<Rightarrow> t \<le> int (seen + length (resources p)))
         then (Returned (),
               [RequestLogged params, ResponseDetails (Some m) (length (resources p)),
                PostRequestState (seen + length (resources p)) (totalCount m) True], sb)
         else (runResult (paginateLoop n k srv callback (seen + length (resources p))
                            (Some m) sb),
               [RequestLogged params, ResponseDetails (Some m) (length (resources p)),
                PostRequestState (seen + length (resources p)) (totalCount m) False] @
               runLog (paginateLoop n k srv callback (seen + length (resources p))
                         (Some m) sb),
               snd (snd (paginateLoop n k srv callback (seen + length (resources p))
                           (Some m) sb))))"
    unfolding paginateLoop_page [where callback = callback and n = n and seen = seen
        and params = params, OF ex cb pg] ge
    by (rule refl)
next
  show "exitsWhenFinished (runResult (paginateResources n k srv callback s))
     (runLog (paginateResources n k srv callback s))"
    by (simp add: paginateResources_def exitsWhenFinished_loop)
qed

theorem empty_first_page_stops_witness:
  "resources (pageOf [] (TotalNumber 7)) = [] \<and>
   paginateResources (Suc (Suc 0)) (Suc 0) emptyServer accept (clientAt 1699999000) =
     (Returned (),
      [RequestLogged None, ResponseDetails (Some (metaOf (TotalNumber 7))) 0,
       PostRequestState 0 (TotalNumber 7) True],
      (clientAt 1699999000)
        \<lparr>rateLimitState := Some \<lparr>limitRemaining = 50, perMinuteLimit = 100, retryAfter = None\<rparr>,
         now := 1699999000 + 1 / 4, apiRequests := 1\<rparr>) \<and>
   pageRequests (runLog (paginateResources (Suc (Suc 0)) (Suc 0) emptyServer accept
                           (clientAt 1699999000))) = 1 \<and>
   paginateLoop (Suc 0) (Suc 0) twoPageServer accept 1 (Some (metaOf (TotalNumber 2)))
     ((clientAt 1699999000)
        \<lparr>rateLimitState := Some \<lparr>limitRemaining = 50, perMinuteLimit = 100, retryAfter = None\<rparr>,
         now := 1699999000 + 1 / 4, apiRequests := 1\<rparr>) =
     (Returned (),
      [RequestLogged (Some (metaOf (TotalNumber 2))),
       ResponseDetails (Some (metaOf (TotalNumber 2))) 1,
       PostRequestState 2 (TotalNumber 2) True],
      (clientAt 1699999000)
        \<lparr>rateLimitState := Some \<lparr>limitRemaining = 50, perMinuteLimit = 100, retryAfter = None\<rparr>,
         now := 1699999000 + 1 / 4 + 1 / 4, apiRequests := 2\<rparr>) \<and>
   paginateLoop (Suc (Suc 0)) (Suc 0) twoPageServer accept 0 None (clientAt 1699999000) =
     (Returned (),
      [RequestLogged None, ResponseDetails (Some (metaOf (TotalNumber 2))) 1,
       PostRequestState 1 (TotalNumber 2) False,
       RequestLogged (Some (metaOf (TotalNumber 2))),
       ResponseDetails (Some (metaOf (TotalNumber 2))) 1,
       PostRequestState 2 (TotalNumber 2) True],
      (clientAt 1699999000)
        \<lparr>rateLimitState := Some \<lparr>limitRemaining = 50, perMinuteLimit = 100, retryAfter = None\<rparr>,
         now := 1699999000 + 1 / 4 + 1 / 4, apiRequests := 2\<rparr>)"
proof -
  define c1 where "c1 = (clientAt 1699999000)
        \<lparr>rateLimitState := Some \<lparr>limitRemaining = 50, perMinuteLimit = 100, retryAfter = None\<rparr>,
         now := 1699999000 + 1 / 4, apiRequests := 1\<rparr>"
  define c2 where "c2 = (clientAt 1699999000)
        \<lparr>rateLimitState := Some \<lparr>limitRemaining = 50, perMinuteLimit = 100, retryAfter = None\<rparr>,
         now := 1699999000 + 1 / 4 + 1 / 4, apiRequests := 2\<rparr>"
  note empty = empty_first_page_stops
    [where k = "Suc 0" and srv = emptyServer and s = "clientAt 1699999000"
       and p = "pageOf [] (TotalNumber 7)" and callback = accept and n = "Suc 0"
       and m = "metaOf (TotalNumber 7)" and sa = c1 and sb = c1]
  have e1: "paginateResources (Suc (Suc 0)) (Suc 0) emptyServer accept (clientAt 1699999000) =
     (Returned (),
      [RequestLogged None, ResponseDetails (Some (metaOf (TotalNumber 7))) 0,
       PostRequestState 0 (TotalNumber 7) True], c1)"
    and e2: "pageRequests (runLog (paginateResources (Suc (Suc 0)) (Suc 0) emptyServer accept
                           (clientAt 1699999000))) = 1"
    using empty
    by (simp_all add: empty_request [folded c1_def] accept_def)
  have second: "paginateLoop (Suc 0) (Suc 0) twoPageServer accept 1
      (Some (metaOf (TotalNumber 2))) c1 =
     (Returned (),
      [RequestLogged (Some (metaOf (TotalNumber 2))),
       ResponseDetails (Some (metaOf (TotalNumber 2))) 1,
       PostRequestState 2 (TotalNumber 2) True], c2)"
    using empty_first_page_stops
      [where k = "Suc 0" and srv = twoPageServer and s = c1
         and p = "pageOf [''b''] (TotalNumber 2)" and callback = accept and n = 0
         and m = "metaOf (TotalNumber 2)" and sa = c2 and sb = c2 and seen = 1
         and params = "Some (metaOf (TotalNumber 2))",
       THEN conjunct2, THEN conjunct2, THEN conjunct1]
    by (simp add: two_page_second [folded c1_def c2_def] accept_def)
  have whole: "paginateLoop (Suc (Suc 0)) (Suc 0) twoPageServer accept 0 None
      (clientAt 1699999000) =
     (Returned (),
      [RequestLogged None, ResponseDetails (Some (metaOf (TotalNumber 2))) 1,
       PostRequestState 1 (TotalNumber 2) False,
       RequestLogged (Some (metaOf (TotalNumber 2))),
       ResponseDetails (Some (metaOf (TotalNumber 2))) 1,
       PostRequestState 2 (TotalNumber 2) True], c2)"
    using empty_first_page_stops
      [where k = "Suc 0" and srv = twoPageServer and s = "clientAt 1699999000"
         and p = "pageOf [''a''] (TotalNumber 2)" and callback = accept and n = "Suc 0"
         and m = "metaOf (TotalNumber 2)" and sa = c1 and sb = c1 and seen = 0
         and params = None,
       THEN conjunct2, THEN conjunct2, THEN conjunct1]
    by (simp add: two_page_first [folded c1_def] second [unfolded One_nat_def] accept_def
        del: paginateLoop.simps)
  have "resources (pageOf [] (TotalNumber 7)) = []"
    by simp
  with e1 e2 second whole show ?thesis
    unfolding c1_def c2_def by blast
qed


text \<open>
  C6. A call of \<open>authenticate\<close> with a held token whose \<open>expiresAt\<close> lies after the clock
  returns that token and leaves the whole state as it was, so no request is sent. With no
  token held, or with a held token whose \<open>expiresAt\<close> is at or before the clock, it sends
  at least one request to the token endpoint, and if it returns, the token it returns is
  the one it stored and was built from a successful response to one of the requests sent
  during the call. A token that expired one second ago is in the second case, one that
  expires in one second is in the first. In the second case, when the token endpoint
  grants a token on the first request and in time, the call returns the granted token,
  with \<open>expiresAt\<close> the clock at that moment plus \<open>expires_in\<close>, and the client holds it.
\<close>

theorem authenticate_reuses_or_exchanges:
  "(token s = Some t \<and> now s < expiresAt t \<longrightarrow> authenticate k srv s = (Returned t, s)) \<and>
   (token s = None \<or> (token s = Some t \<and> expiresAt t \<le> now s) \<longrightarrow>
      tokenRequests s < tokenRequests (snd (authenticate (Suc k) srv s)) \<and>
      (\<forall>t' s'. authenticate k srv s = (Returned t', s') \<longrightarrow>
         token s' = Some t' \<and>
         (\<exists>i dt r. tokenRequests s \<le> i \<and> i < tokenRequests s' \<and>
            tokenEndpoint srv i = (dt, Responded r) \<and> ok (tokenStatus r) \<and>
            t' = \<lparr>tokenStr = access_token r, expiresAt = now s' + expires_in r\<rparr>))) \<and>
   (token s = Some t \<and> expiresAt t = now s - 1 \<longrightarrow>
      tokenRequests s < tokenRequests (snd (authenticate (Suc k) srv s))) \<and>
   (token s = Some t \<and> expiresAt t = now s + 1 \<longrightarrow> authenticate k srv s = (Returned t, s)) \<and>
   ((token s = None \<or> (token s = Some t \<and> expiresAt t \<le> now s)) \<and>
    tokenEndpoint srv (tokenRequests s) = (dt, Responded r) \<and> ok (tokenStatus r) \<and>
    arrivesInTime (attemptOptions s) dt \<longrightarrow>
      authenticate (Suc k) srv s =
        (Returned \<lparr>tokenStr = access_token r, expiresAt = now s + dt + expires_in r\<rparr>,
         s\<lparr>now := now s + dt, tokenRequests := Suc (tokenRequests s),
           token := Some \<lparr>tokenStr = access_token r,
                          expiresAt = now s + dt + expires_in r\<rparr>\<rparr>))"
proof (intro conjI impI)
  assume "token s = Some t \<and> now s < expiresAt t"
  then show "authenticate k srv s = (Returned t, s)"
    by (simp add: authenticate_fresh)
next
  assume "token s = Some t \<and> expiresAt t = now s + 1"
  then show "authenticate k srv s = (Returned t, s)"
    by (simp add: authenticate_fresh)
next
  assume "token s = None \<or> (token s = Some t \<and> expiresAt t \<le> now s)"
  then have stale: "token s = None \<or> (\<exists>t. token s = Some t \<and> expiresAt t \<le> now s)"
    by blast
  note exch = authenticate_stale [OF stale]
  show "tokenRequests s < tokenRequests (snd (authenticate (Suc k) srv s))"
    using requestOAuth2Token_sends [of s k srv]
    by (auto simp: exch split: prod.splits result.splits)
  show "\<forall>t' s'. authenticate k srv s = (Returned t', s') \<longrightarrow>
         token s' = Some t' \<and>
         (\<exists>i dt r. tokenRequests s \<le> i \<and> i < tokenRequests s' \<and>
            tokenEndpoint srv i = (dt, Responded r) \<and> ok (tokenStatus r) \<and>
            t' = \<lparr>tokenStr = access_token r, expiresAt = now s' + expires_in r\<rparr>)"
  proof (intro allI impI)
    fix t' s'
    assume "authenticate k srv s = (Returned t', s')"
    then obtain s1 where req: "requestOAuth2Token k srv s = (Returned t', s1)"
      and s': "s' = s1\<lparr>token := Some t'\<rparr>"
      by (auto simp: exch split: prod.splits result.splits)
    from requestOAuth2Token_returned [OF req] s'
    show "token s' = Some t' \<and>
         (\<exists>i dt r. tokenRequests s \<le> i \<and> i < tokenRequests s' \<and>
            tokenEndpoint srv i = (dt, Responded r) \<and> ok (tokenStatus r) \<and>
            t' = \<lparr>tokenStr = access_token r, expiresAt = now s' + expires_in r\<rparr>)"
      by auto
  qed
next
  assume "token s = Some t \<and> expiresAt t = now s - 1"
  then have stale: "token s = None \<or> (\<exists>t. token s = Some t \<and> expiresAt t \<le> now s)"
    by simp
  show "tokenRequests s < tokenRequests (snd (authenticate (Suc k) srv s))"
    using requestOAuth2Token_sends [of s k srv]
    by (auto simp: authenticate_stale [OF stale] split: prod.splits result.splits)
next
  assume a: "(token s = None \<or> (token s = Some t \<and> expiresAt t \<le> now s)) \<and>
    tokenEndpoint srv (tokenRequests s) = (dt, Responded r) \<and> ok (tokenStatus r) \<and>
    arrivesInTime (attemptOptions s) dt"
  then have stale: "token s = None \<or> (\<exists>t. token s = Some t \<and> expiresAt t \<le> now s)"
    by blast
  from a have "tokenEndpoint srv (tokenRequests s) = (dt, Responded r)"
    and "ok (tokenStatus r)" and "arrivesInTime (attemptOptions s) dt"
    by simp_all
  from requestOAuth2Token_granted [where k = k, OF this]
  show "authenticate (Suc k) srv s =
        (Returned \<lparr>tokenStr = access_token r, expiresAt = now s + dt + expires_in r\<rparr>,
         s\<lparr>now := now s + dt, tokenRequests := Suc (tokenRequests s),
           token := Some \<lparr>tokenStr = access_token r,
                          expiresAt = now s + dt + expires_in r\<rparr>\<rparr>)"
    by (simp add: authenticate_stale [OF stale])
qed

theorem authenticate_reuses_or_exchanges_witness:
  "(token (clientAt 1700000000) = Some heldToken \<and>
    expiresAt heldToken = now (clientAt 1700000000) + 1 \<and>
    authenticate (Suc 0) (scripted [(1 / 2, Responded grant)] []) (clientAt 1700000000) =
      (Returned heldToken, clientAt 1700000000)) \<and>
   (token (clientAt 1700000002) = Some heldToken \<and>
    expiresAt heldToken = now (clientAt 1700000002) - 1 \<and>
    tokenRequests (clientAt 1700000002) <
      tokenRequests (snd (authenticate (Suc 0) (scripted [(1 / 2, Responded grant)] [])
                            (clientAt 1700000002))) \<and>
    tokenEndpoint (scripted [(1 / 2, Responded grant)] []) (tokenRequests (clientAt 1700000002)) =
      (1 / 2, Responded grant) \<and>
    ok (tokenStatus grant) \<and>
    arrivesInTime (attemptOptions (clientAt 1700000002)) (1 / 2) \<and>
    authenticate (Suc 0) (scripted [(1 / 2, Responded grant)] []) (clientAt 1700000002) =
      (Returned \<lparr>tokenStr = ''fresh'', expiresAt = 1700000002 + 1 / 2 + 1799\<rparr>,
       (clientAt 1700000002)
         \<lparr>now := 1700000002 + 1 / 2, tokenRequests := 1,
          token := Some \<lparr>tokenStr = ''fresh'', expiresAt = 1700000002 + 1 / 2 + 1799\<rparr>\<rparr>))"
  using authenticate_reuses_or_exchanges
          [of "clientAt 1700000000" heldToken "Suc 0" "scripted [(1 / 2, Responded grant)] []"]
        authenticate_reuses_or_exchanges
          [of "clientAt 1700000002" heldToken 0 "scripted [(1 / 2, Responded grant)] []"
              "1 / 2" grant]
  by (simp add: clientAt_def heldToken_def scripted_def grant_def ok_def
      DEFAULT_ATTEMPT_OPTIONS_def arrivesInTime_def waited_def TIMEOUT_MAX_def)

text \<open>
  C7. If the token endpoint only ever grants tokens with a positive \<open>expires_in\<close>, a
  token returned by \<open>authenticate\<close> expires after the clock reading at the moment it is
  returned, and it is the token the client holds.
\<close>

theorem returned_token_is_valid:
  assumes "authenticate k srv s = (Returned t, s')"
    and "\<forall>i dt r. tokenEndpoint srv i = (dt, Responded r) \<longrightarrow> 0 < expires_in r"
  shows "now s' < expiresAt t \<and> token s' = Some t"
proof (cases "case token s of None \<Rightarrow> None
                | Some t0 \<Rightarrow> if isValidToken t0 (now s) then Some t0 else None")
  case (Some t0)
  with assms(1) show ?thesis
    by (auto simp: authenticate_def isValidToken_def split: option.splits if_splits)
next
  case None
  with assms(1) obtain s1 where req: "requestOAuth2Token k srv s = (Returned t, s1)"
    and s': "s' = s1\<lparr>token := Some t\<rparr>"
    by (auto simp: authenticate_def split: prod.splits result.splits)
  from requestOAuth2Token_returned [OF req] obtain i dt r where
    r: "tokenEndpoint srv i = (dt, Responded r)"
    and t: "t = \<lparr>tokenStr = access_token r, expiresAt = now s1 + expires_in r\<rparr>"
    by blast
  from assms(2) r have "0 < expires_in r" by blast
  with t s' show ?thesis by simp
qed

theorem returned_token_is_valid_witness:
  "authenticate (Suc 0) (scripted [(1 / 2, Responded grant)] []) (clientAt 1700000002) =
     (Returned \<lparr>tokenStr = ''fresh'', expiresAt = 1700000002 + 1 / 2 + 1799\<rparr>,
      (clientAt 1700000002)
        \<lparr>token := Some \<lparr>tokenStr = ''fresh'', expiresAt = 1700000002 + 1 / 2 + 1799\<rparr>,
         now := 1700000002 + 1 / 2, tokenRequests := 1\<rparr>) \<and>
   now ((clientAt 1700000002)
        \<lparr>token := Some \<lparr>tokenStr = ''fresh'', expiresAt = 1700000002 + 1 / 2 + 1799\<rparr>,
         now := 1700000002 + 1 / 2, tokenRequests := 1\<rparr>)
     < expiresAt \<lparr>tokenStr = ''fresh'', expiresAt = 1700000002 + 1 / 2 + 1799\<rparr>"
proof -
  have pos: "\<forall>i dt r. tokenEndpoint (scripted [(1 / 2, Responded grant)] []) i = (dt, Responded r)
               \<longrightarrow> 0 < expires_in r"
    by (auto simp: scripted_def grant_def split: if_splits)
  from returned_token_is_valid [OF grant_run pos] grant_run show ?thesis by blast
qed










end
